theory Spec2Isabelle
  imports Main "HOL-Library.Sublist"
begin

section \<open>Go strings and the library functions the matcher calls\<close>

text \<open>
  A Go string is a sequence of bytes, here a \<^typ>\<open>string\<close> (a list of 8-bit characters).
  The functions of this section are the ones \<^verbatim>\<open>ignore.go\<close> imports from the Go
  standard library (packages \<^verbatim>\<open>strings\<close>, \<^verbatim>\<open>unicode/utf8\<close> and
  \<^verbatim>\<open>path/filepath\<close>), with the behaviour they have on a Unix target: the path
  separator is \<^verbatim>\<open>/\<close> and the backslash is the escape character of a glob.
\<close>

definition strings_HasPrefix :: "string \<Rightarrow> string \<Rightarrow> bool" where
  "strings_HasPrefix s p = prefix p s"

definition strings_HasSuffix :: "string \<Rightarrow> string \<Rightarrow> bool" where
  "strings_HasSuffix s p = suffix p s"

definition strings_TrimPrefix :: "string \<Rightarrow> string \<Rightarrow> string" where
  "strings_TrimPrefix s p = (if prefix p s then drop (length p) s else s)"

definition strings_TrimSuffix :: "string \<Rightarrow> string \<Rightarrow> string" where
  "strings_TrimSuffix s p = (if suffix p s then take (length s - length p) s else s)"

text \<open>\<^verbatim>\<open>strings.Trim(s, cutset)\<close> for a cutset of ASCII bytes (the code only passes \<^verbatim>\<open>"/"\<close>).\<close>

definition strings_Trim :: "string \<Rightarrow> string \<Rightarrow> string" where
  "strings_Trim s cutset =
     rev (dropWhile (\<lambda>c. c \<in> set cutset) (rev (dropWhile (\<lambda>c. c \<in> set cutset) s)))"

text \<open>\<^verbatim>\<open>strings.Index\<close>: the first byte offset of \<open>sub\<close> in \<open>s\<close>; \<open>None\<close> stands for \<open>-1\<close>.\<close>

fun strings_Index :: "string \<Rightarrow> string \<Rightarrow> nat option" where
  "strings_Index [] sub = (if sub = [] then Some 0 else None)"
| "strings_Index (c # cs) sub =
     (if prefix sub (c # cs) then Some 0 else map_option Suc (strings_Index cs sub))"

definition strings_Contains :: "string \<Rightarrow> string \<Rightarrow> bool" where
  "strings_Contains s sub = (strings_Index s sub \<noteq> None)"

text \<open>\<^verbatim>\<open>strings.ContainsAny(s, chars)\<close> for ASCII \<open>chars\<close> (the code passes \<^verbatim>\<open>"*?["\<close>).\<close>

definition strings_ContainsAny :: "string \<Rightarrow> string \<Rightarrow> bool" where
  "strings_ContainsAny s chars = list_ex (\<lambda>c. c \<in> set chars) s"

fun strings_Join :: "string list \<Rightarrow> string \<Rightarrow> string" where
  "strings_Join [] sep = []"
| "strings_Join [x] sep = x"
| "strings_Join (x # y # ys) sep = x @ sep @ strings_Join (y # ys) sep"

lemma strings_Index_bound:
  "strings_Index s sub = Some m \<Longrightarrow> m + length sub \<le> length s"
proof (induction s arbitrary: m)
  case Nil
  then show ?case by (simp split: if_splits)
next
  case (Cons c cs)
  show ?case
  proof (cases "prefix sub (c # cs)")
    case True
    with Cons.prems prefix_length_le [of sub "c # cs"] show ?thesis by simp
  next
    case False
    with Cons.prems obtain k where "strings_Index cs sub = Some k" "m = Suc k"
      by auto
    with Cons.IH show ?thesis by fastforce
  qed
qed

text \<open>
  \<^verbatim>\<open>strings.Split(s, sep)\<close> for a non-empty separator: cut at each occurrence of
  \<open>sep\<close>, scanning from the left. (The code passes \<^verbatim>\<open>"/"\<close> and \<^verbatim>\<open>"**"\<close>;
  the empty separator is not modelled.)
\<close>

function (sequential) strings_Split :: "string \<Rightarrow> string \<Rightarrow> string list" where
  "strings_Split s (d # ds) =
     (case strings_Index s (d # ds) of
        None \<Rightarrow> [s]
      | Some m \<Rightarrow> take m s # strings_Split (drop (m + length (d # ds)) s) (d # ds))"
  by pat_completeness auto
termination
proof (relation "measure (\<lambda>(s, sep). length s)")
  show "wf (measure (\<lambda>(s, sep). length s))" by simp
next
  fix s :: string and d ds m
  assume "strings_Index s (d # ds) = Some m"
  then have "m + length (d # ds) \<le> length s" by (rule strings_Index_bound)
  then show "((drop (m + length (d # ds)) s, d # ds), (s, d # ds)) \<in> measure (\<lambda>(s, sep). length s)"
    by simp
qed

declare strings_Split.simps [simp del]

subsection \<open>White space\<close>

text \<open>
  \<^verbatim>\<open>strings.TrimSpace\<close> removes the leading and the trailing Unicode white space of a
  UTF-8 string. A code point is white space (\<^verbatim>\<open>unicode.IsSpace\<close>) when it is one of the
  ASCII characters tab, line feed, vertical tab, form feed, carriage return and space, or
  U+0085, U+00A0, U+1680, U+2000 to U+200A, U+2028, U+2029, U+202F, U+205F, U+3000. Only
  the shortest encoding of a code point decodes to it, so the white space at either end
  is a run of the byte sequences listed in \<open>space_tokens\<close>.
\<close>

definition space_tokens :: "string list" where
  "space_tokens =
     [[CHR 0x09], [CHR 0x0A], [CHR 0x0B], [CHR 0x0C], [CHR 0x0D], [CHR 0x20],
      [CHR 0xC2, CHR 0x85], [CHR 0xC2, CHR 0xA0], [CHR 0xE1, CHR 0x9A, CHR 0x80],
      [CHR 0xE2, CHR 0x80, CHR 0x80], [CHR 0xE2, CHR 0x80, CHR 0x81],
      [CHR 0xE2, CHR 0x80, CHR 0x82], [CHR 0xE2, CHR 0x80, CHR 0x83],
      [CHR 0xE2, CHR 0x80, CHR 0x84], [CHR 0xE2, CHR 0x80, CHR 0x85],
      [CHR 0xE2, CHR 0x80, CHR 0x86], [CHR 0xE2, CHR 0x80, CHR 0x87],
      [CHR 0xE2, CHR 0x80, CHR 0x88], [CHR 0xE2, CHR 0x80, CHR 0x89],
      [CHR 0xE2, CHR 0x80, CHR 0x8A], [CHR 0xE2, CHR 0x80, CHR 0xA8],
      [CHR 0xE2, CHR 0x80, CHR 0xA9], [CHR 0xE2, CHR 0x80, CHR 0xAF],
      [CHR 0xE2, CHR 0x81, CHR 0x9F], [CHR 0xE3, CHR 0x80, CHR 0x80]]"

text \<open>The length of the white-space token at the front of \<open>s\<close>, if there is one.\<close>

definition leading_space :: "string \<Rightarrow> nat option" where
  "leading_space s = map_option length (find (\<lambda>t. prefix t s) space_tokens)"

definition trailing_space :: "string \<Rightarrow> nat option" where
  "trailing_space s = map_option length (find (\<lambda>t. suffix t s) space_tokens)"

lemma space_tokens_nonempty: "t \<in> set space_tokens \<Longrightarrow> 0 < length t \<and> length t \<le> 3"
  by (auto simp: space_tokens_def)

lemma leading_space_bound: "leading_space s = Some n \<Longrightarrow> 0 < n \<and> n \<le> length s"
proof -
  assume "leading_space s = Some n"
  then obtain t where t: "find (\<lambda>t. prefix t s) space_tokens = Some t" "n = length t"
    by (auto simp: leading_space_def)
  then have "t \<in> set space_tokens" "prefix t s"
    by (auto simp: find_Some_iff)
  then show ?thesis using t(2) space_tokens_nonempty [of t] by (auto simp: prefix_length_le)
qed

lemma trailing_space_bound: "trailing_space s = Some n \<Longrightarrow> 0 < n \<and> n \<le> length s"
proof -
  assume "trailing_space s = Some n"
  then obtain t where t: "find (\<lambda>t. suffix t s) space_tokens = Some t" "n = length t"
    by (auto simp: trailing_space_def)
  then have "t \<in> set space_tokens" "suffix t s"
    by (auto simp: find_Some_iff)
  then show ?thesis using t(2) space_tokens_nonempty [of t] by (auto simp: suffix_length_le)
qed

function TrimLeftSpace :: "string \<Rightarrow> string" where
  "TrimLeftSpace s =
     (case leading_space s of None \<Rightarrow> s | Some n \<Rightarrow> TrimLeftSpace (drop n s))"
  by pat_completeness auto
termination
  by (relation "measure length") (auto dest: leading_space_bound)

declare TrimLeftSpace.simps [simp del]

function TrimRightSpace :: "string \<Rightarrow> string" where
  "TrimRightSpace s =
     (case trailing_space s of None \<Rightarrow> s
      | Some n \<Rightarrow> TrimRightSpace (take (length s - n) s))"
  by pat_completeness auto
termination
  by (relation "measure length") (auto dest: trailing_space_bound)

declare TrimRightSpace.simps [simp del]

definition strings_TrimSpace :: "string \<Rightarrow> string" where
  "strings_TrimSpace s = TrimRightSpace (TrimLeftSpace s)"

subsection \<open>UTF-8 decoding\<close>

text \<open>
  \<^verbatim>\<open>utf8.DecodeRuneInString\<close>: the first code point of \<open>s\<close> (a \<^verbatim>\<open>rune\<close>, here
  an \<^typ>\<open>int\<close>) and the number of bytes of its encoding. A byte sequence that is not the shortest UTF-8 encoding of a code
  point (a surrogate and a value above U+10FFFF included) decodes to
  \<open>(utf8_RuneError, 1)\<close>, the empty string to \<open>(utf8_RuneError, 0)\<close>.
\<close>

definition utf8_RuneError :: int where
  "utf8_RuneError = 0xFFFD"

text \<open>The size of the encoding a first byte announces and the range accepted for the second byte.\<close>

definition utf8_first :: "int \<Rightarrow> (nat \<times> int \<times> int) option" where
  "utf8_first b =
     (if 0xC2 \<le> b \<and> b \<le> 0xDF then Some (2, 0x80, 0xBF)
      else if b = 0xE0 then Some (3, 0xA0, 0xBF)
      else if b = 0xED then Some (3, 0x80, 0x9F)
      else if 0xE1 \<le> b \<and> b \<le> 0xEF then Some (3, 0x80, 0xBF)
      else if b = 0xF0 then Some (4, 0x90, 0xBF)
      else if 0xF1 \<le> b \<and> b \<le> 0xF3 then Some (4, 0x80, 0xBF)
      else if b = 0xF4 then Some (4, 0x80, 0x8F)
      else None)"

definition utf8_cont :: "int \<Rightarrow> bool" where
  "utf8_cont b = (0x80 \<le> b \<and> b \<le> 0xBF)"

definition utf8_DecodeRuneInString :: "string \<Rightarrow> int \<times> nat" where
  "utf8_DecodeRuneInString s =
     (case map of_char s of
        [] \<Rightarrow> (utf8_RuneError, 0)
      | s0 # t \<Rightarrow>
          if s0 < 0x80 then (s0, 1)
          else (case utf8_first s0 of
                  None \<Rightarrow> (utf8_RuneError, 1)
                | Some (sz, lo, hi) \<Rightarrow>
                    if length (s0 # t) < sz then (utf8_RuneError, 1)
                    else let s1 = t ! 0 in
                      if s1 < lo \<or> hi < s1 then (utf8_RuneError, 1)
                      else if sz \<le> 2 then ((s0 mod 32) * 64 + s1 mod 64, 2)
                      else let s2 = t ! 1 in
                        if \<not> utf8_cont s2 then (utf8_RuneError, 1)
                        else if sz \<le> 3 then
                          ((s0 mod 16) * 4096 + (s1 mod 64) * 64 + s2 mod 64, 3)
                        else let s3 = t ! 2 in
                          if \<not> utf8_cont s3 then (utf8_RuneError, 1)
                          else ((s0 mod 8) * 262144 + (s1 mod 64) * 4096
                                + (s2 mod 64) * 64 + s3 mod 64, 4)))"

lemma utf8_first_size: "utf8_first b = Some (sz, lo, hi) \<Longrightarrow> 2 \<le> sz \<and> sz \<le> 4"
  by (auto simp: utf8_first_def split: if_splits)

lemma utf8_Decode_size:
  assumes "utf8_DecodeRuneInString s = (r, n)" and "s \<noteq> []"
  shows "1 \<le> n \<and> n \<le> length s"
proof -
  obtain c cs where s: "s = c # cs" using assms(2) by (cases s) auto
  show ?thesis
  proof (cases "utf8_first (of_char c)")
    case None
    with assms(1) s show ?thesis
      by (auto simp: utf8_DecodeRuneInString_def split: if_splits)
  next
    case (Some a)
    obtain sz lo hi where a: "a = (sz, lo, hi)" by (cases a) auto
    have "2 \<le> sz \<and> sz \<le> 4" using Some a utf8_first_size by blast
    with assms(1) s Some a show ?thesis
      by (auto simp: utf8_DecodeRuneInString_def Let_def Suc_le_eq split: if_splits)
  qed
qed

subsection \<open>Shell patterns: \<^verbatim>\<open>filepath.Match\<close>\<close>

text \<open>
  \<^verbatim>\<open>filepath.Match(pattern, name)\<close> reports whether the whole of \<open>name\<close> matches the
  shell pattern: \<^verbatim>\<open>*\<close> matches any run of bytes other than \<^verbatim>\<open>/\<close>, \<^verbatim>\<open>?\<close> one code
  point other than \<^verbatim>\<open>/\<close>, \<^verbatim>\<open>[...]\<close> a code point of a class, a backslash quotes the
  next byte. The matcher drops the error of a malformed pattern and keeps the verdict,
  which is then \<open>false\<close>; the model returns that verdict.
\<close>

datatype chunk_result = BadPattern | NoMatch | Matched string

text \<open>\<^verbatim>\<open>getEsc\<close>: one bound of a class range; \<open>None\<close> is \<^verbatim>\<open>ErrBadPattern\<close>.\<close>

definition getEsc :: "string \<Rightarrow> (int \<times> string) option" where
  "getEsc chunk =
     (if chunk = [] \<or> hd chunk = CHR ''-'' \<or> hd chunk = CHR '']'' then None
      else let chunk1 = (if hd chunk = CHR 0x5C then tl chunk else chunk) in
        if chunk1 = [] then None
        else let (r, n) = utf8_DecodeRuneInString chunk1; nchunk = drop n chunk1 in
          if (r = utf8_RuneError \<and> n = 1) \<or> nchunk = [] then None
          else Some (r, nchunk))"

lemma getEsc_shorter: "getEsc chunk = Some (r, rest) \<Longrightarrow> length rest < length chunk"
proof -
  assume a: "getEsc chunk = Some (r, rest)"
  then have ne: "chunk \<noteq> []" by (auto simp: getEsc_def)
  define chunk1 where "chunk1 = (if hd chunk = CHR 0x5C then tl chunk else chunk)"
  from a have ne1: "chunk1 \<noteq> []"
    by (auto simp: getEsc_def chunk1_def Let_def split: if_splits)
  obtain r' n where d: "utf8_DecodeRuneInString chunk1 = (r', n)" by force
  then have n: "1 \<le> n" using utf8_Decode_size ne1 by blast
  from a d have "rest = drop n chunk1"
    by (auto simp: getEsc_def chunk1_def Let_def split: if_splits)
  then have "length rest < length chunk1" using n ne1 by (cases chunk1) auto
  moreover have "length chunk1 \<le> length chunk" by (simp add: chunk1_def)
  ultimately show ?thesis by simp
qed

text \<open>The ranges of a class, up to its closing bracket; \<open>r\<close> is the code point tested.\<close>

function class_ranges :: "int \<Rightarrow> bool \<Rightarrow> nat \<Rightarrow> string \<Rightarrow> (bool \<times> string) option" where
  "class_ranges r match nrange chunk =
     (if chunk \<noteq> [] \<and> hd chunk = CHR '']'' \<and> 0 < nrange then Some (match, tl chunk)
      else case getEsc chunk of
             None \<Rightarrow> None
           | Some (lo, chunk1) \<Rightarrow>
               if hd chunk1 = CHR ''-'' then
                 (case getEsc (tl chunk1) of
                    None \<Rightarrow> None
                  | Some (hi, chunk2) \<Rightarrow>
                      class_ranges r (match \<or> (lo \<le> r \<and> r \<le> hi)) (nrange + 1) chunk2)
               else class_ranges r (match \<or> (lo \<le> r \<and> r \<le> lo)) (nrange + 1) chunk1)"
  by pat_completeness auto
termination
proof (relation "measure (\<lambda>(r, match, nrange, chunk). length chunk)")
  show "wf (measure (\<lambda>(r, match, nrange, chunk). length chunk))" by simp
next
  fix r :: int and match :: bool and nrange :: nat and chunk x2 :: string
    and x y :: "int \<times> string" and lo hi :: int and chunk1 chunk2 :: string
  assume "getEsc chunk = Some x" "(lo, chunk1) = x" "getEsc (tl chunk1) = Some y"
    "(hi, chunk2) = y"
  then have "length chunk1 < length chunk" "length chunk2 < length (tl chunk1)"
    using getEsc_shorter by metis+
  then show "((r, match \<or> lo \<le> r \<and> r \<le> hi, nrange + 1, chunk2), r, match, nrange, chunk)
      \<in> measure (\<lambda>(r, match, nrange, chunk). length chunk)"
    by simp
next
  fix r :: int and match :: bool and nrange :: nat and chunk :: string
    and x :: "int \<times> string" and lo :: int and chunk1 :: string
  assume "getEsc chunk = Some x" "(lo, chunk1) = x"
  then have "length chunk1 < length chunk" using getEsc_shorter by metis
  then show "((r, match \<or> lo \<le> r \<and> r \<le> lo, nrange + 1, chunk1), r, match, nrange, chunk)
      \<in> measure (\<lambda>(r, match, nrange, chunk). length chunk)"
    by simp
qed

declare class_ranges.simps [simp del]

lemma class_ranges_shorter:
  "class_ranges r match nrange chunk = Some (m, rest) \<Longrightarrow> length rest < length chunk"
proof (induction r match nrange chunk rule: class_ranges.induct)
  case (1 r match nrange chunk)
  note unf = class_ranges.simps [of r match nrange chunk]
  show ?case
  proof (cases "chunk \<noteq> [] \<and> hd chunk = CHR '']'' \<and> 0 < nrange")
    case True
    with "1.prems" unf have "rest = tl chunk" by simp
    with True show ?thesis by (cases chunk) auto
  next
    case False
    with "1.prems" unf obtain lo chunk1 where e1: "getEsc chunk = Some (lo, chunk1)"
      by (auto split: option.splits)
    then have l1: "length chunk1 < length chunk" by (rule getEsc_shorter)
    show ?thesis
    proof (cases "hd chunk1 = CHR ''-''")
      case True
      with "1.prems" unf False e1 obtain hi chunk2
        where e2: "getEsc (tl chunk1) = Some (hi, chunk2)"
        by (auto split: option.splits)
      then have l2: "length chunk2 < length (tl chunk1)" by (rule getEsc_shorter)
      from "1.prems" unf False e1 True e2
      have "class_ranges r (match \<or> (lo \<le> r \<and> r \<le> hi)) (nrange + 1) chunk2 = Some (m, rest)"
        by simp
      with "1.IH"(1) [OF False e1 refl True e2 refl] have "length rest < length chunk2"
        by simp
      with l1 l2 show ?thesis by simp
    next
      case nodash: False
      from "1.prems" unf False e1 nodash
      have "class_ranges r (match \<or> (lo \<le> r \<and> r \<le> lo)) (nrange + 1) chunk1 = Some (m, rest)"
        by simp
      with "1.IH"(2) [OF False e1 refl nodash] have "length rest < length chunk1"
        by simp
      with l1 show ?thesis by simp
    qed
  qed
qed

text \<open>
  \<^verbatim>\<open>matchChunk\<close>: whether \<open>chunk\<close> (a pattern without an unbracketed star) matches a
  prefix of \<open>s\<close>, and then the rest of \<open>s\<close>. Once the match has failed the loop goes on
  through the chunk, only to find a malformed pattern.
\<close>

function matchChunk_loop :: "bool \<Rightarrow> string \<Rightarrow> string \<Rightarrow> chunk_result" where
  "matchChunk_loop failed [] s = (if failed then NoMatch else Matched s)"
| "matchChunk_loop failed0 (c # chunk) s =
     (let failed = (failed0 \<or> s = []) in
      if c = CHR ''['' then
        (let r = (if failed then 0 else fst (utf8_DecodeRuneInString s));
             s1 = (if failed then s else drop (snd (utf8_DecodeRuneInString s)) s);
             negated = (chunk \<noteq> [] \<and> hd chunk = CHR ''^'');
             chunk1 = (if negated then tl chunk else chunk)
         in case class_ranges r False 0 chunk1 of
              None \<Rightarrow> BadPattern
            | Some (match, chunk2) \<Rightarrow> matchChunk_loop (failed \<or> match = negated) chunk2 s1)
      else if c = CHR ''?'' then
        (if failed then matchChunk_loop failed chunk s
         else matchChunk_loop (hd s = CHR ''/'') chunk
                (drop (snd (utf8_DecodeRuneInString s)) s))
      else if c = CHR 0x5C then
        (case chunk of
           [] \<Rightarrow> BadPattern
         | d # chunk' \<Rightarrow>
             if failed then matchChunk_loop failed chunk' s
             else matchChunk_loop (d \<noteq> hd s) chunk' (tl s))
      else (if failed then matchChunk_loop failed chunk s
            else matchChunk_loop (c \<noteq> hd s) chunk (tl s)))"
  by pat_completeness auto
termination
proof (relation "measure (\<lambda>(failed, chunk, s). length chunk)", goal_cases)
  case 1
  show ?case by simp
next
  case (2 failed0 c chunk s failed r s1 negated chunk1 x2 match chunk2)
  then have "class_ranges r False 0 chunk1 = Some (match, chunk2)" by simp
  then have "length chunk2 < length chunk1" by (rule class_ranges_shorter)
  moreover have "length chunk1 \<le> length chunk" using 2 by simp
  ultimately show ?case by simp
qed auto

definition matchChunk :: "string \<Rightarrow> string \<Rightarrow> chunk_result" where
  "matchChunk chunk s = matchChunk_loop False chunk s"

text \<open>
  \<^verbatim>\<open>scanChunk\<close>: the next chunk of the pattern, which is the text up to the next
  unbracketed star, with the stars before it dropped and noted.
\<close>

fun scan_index :: "bool \<Rightarrow> string \<Rightarrow> nat" where
  "scan_index inrange [] = 0"
| "scan_index inrange (c # cs) =
     (if c = CHR 0x5C then (case cs of [] \<Rightarrow> 1 | d # ds \<Rightarrow> 2 + scan_index inrange ds)
      else if c = CHR ''['' then 1 + scan_index True cs
      else if c = CHR '']'' then 1 + scan_index False cs
      else if c = CHR ''*'' \<and> \<not> inrange then 0
      else 1 + scan_index inrange cs)"

definition scanChunk :: "string \<Rightarrow> bool \<times> string \<times> string" where
  "scanChunk pattern =
     (let star = (pattern \<noteq> [] \<and> hd pattern = CHR ''*'');
          p = dropWhile (\<lambda>c. c = CHR ''*'') pattern;
          i = scan_index False p
      in (star, take i p, drop i p))"

lemma scan_index_pos: "p \<noteq> [] \<Longrightarrow> hd p \<noteq> CHR ''*'' \<Longrightarrow> 0 < scan_index False p"
  by (cases p) (auto split: list.splits)

lemma scanChunk_shorter:
  assumes "pattern \<noteq> []" and "(star, chunk, rest) = scanChunk pattern"
  shows "length rest < length pattern"
proof -
  define p where "p = dropWhile (\<lambda>c. c = CHR ''*'') pattern"
  have rest: "rest = drop (scan_index False p) p"
    using assms(2) [symmetric] by (simp add: scanChunk_def Let_def p_def)
  have le: "length p \<le> length pattern" by (simp add: p_def length_dropWhile_le)
  show ?thesis
  proof (cases "hd pattern = CHR ''*''")
    case True
    then have "p = dropWhile (\<lambda>c. c = CHR ''*'') (tl pattern)"
      using assms(1) by (cases pattern) (auto simp: p_def)
    then have "length p \<le> length (tl pattern)"
      using length_dropWhile_le [of "\<lambda>c. c = CHR ''*''" "tl pattern"] by simp
    then have "length p < length pattern" using assms(1) by (cases pattern) auto
    with rest show ?thesis by simp
  next
    case False
    then have "p = pattern" using assms(1) by (cases pattern) (auto simp: p_def)
    with rest scan_index_pos [OF assms(1) False] assms(1) show ?thesis by simp
  qed
qed

text \<open>
  The search after a star: skip bytes of \<open>name\<close> up to the first place where the chunk
  matches, never past a \<^verbatim>\<open>/\<close>. \<open>Matched t\<close> carries on with \<open>t\<close>, \<open>NoMatch\<close> is the
  verdict \<open>false\<close>, \<open>BadPattern\<close> the error.
\<close>

fun star_search :: "string \<Rightarrow> bool \<Rightarrow> string \<Rightarrow> chunk_result" where
  "star_search chunk lastChunk [] = NoMatch"
| "star_search chunk lastChunk (c # name) =
     (if c = CHR ''/'' then NoMatch
      else case matchChunk chunk name of
             Matched t \<Rightarrow>
               if lastChunk \<and> t \<noteq> [] then star_search chunk lastChunk name else Matched t
           | BadPattern \<Rightarrow> BadPattern
           | NoMatch \<Rightarrow> star_search chunk lastChunk name)"

function filepath_Match :: "string \<Rightarrow> string \<Rightarrow> bool" where
  "filepath_Match pattern name =
     (if pattern = [] then name = []
      else case scanChunk pattern of
        (star, chunk, rest) \<Rightarrow>
          if star \<and> chunk = [] then CHR ''/'' \<notin> set name
          else (case matchChunk chunk name of
                 Matched t \<Rightarrow>
                   if t = [] \<or> rest \<noteq> [] then filepath_Match rest t
                   else if star then
                     (case star_search chunk (rest = []) name of
                        Matched t' \<Rightarrow> filepath_Match rest t'
                      | _ \<Rightarrow> False)
                   else False
               | BadPattern \<Rightarrow> False
               | NoMatch \<Rightarrow>
                   if star then
                     (case star_search chunk (rest = []) name of
                        Matched t' \<Rightarrow> filepath_Match rest t'
                      | _ \<Rightarrow> False)
                   else False))"
  by pat_completeness auto
termination
  by (relation "measure (\<lambda>(pattern, name). length pattern)")
     (auto intro: scanChunk_shorter)

declare filepath_Match.simps [simp del]

subsection \<open>Lexical paths: \<^verbatim>\<open>filepath.Clean\<close> and \<^verbatim>\<open>filepath.Rel\<close>\<close>

text \<open>On a Unix target \<^verbatim>\<open>filepath.ToSlash\<close> returns its argument.\<close>

definition filepath_ToSlash :: "string \<Rightarrow> string" where
  "filepath_ToSlash p = p"

text \<open>
  \<^verbatim>\<open>filepath.Clean\<close> writes the shortest path equivalent to its argument into a buffer
  \<open>out\<close>: an empty element and \<^verbatim>\<open>.\<close> are skipped, \<^verbatim>\<open>..\<close> removes the element written
  last, down to the index \<open>dotdot\<close>.
\<close>

function backtrack_w :: "string \<Rightarrow> nat \<Rightarrow> nat \<Rightarrow> nat" where
  "backtrack_w out dotdot w =
     (if dotdot < w \<and> out ! w \<noteq> CHR ''/'' then backtrack_w out dotdot (w - 1) else w)"
  by pat_completeness auto
termination
  by (relation "measure (\<lambda>(out, dotdot, w). w)") auto

declare backtrack_w.simps [simp del]

lemma length_dropWhile_Cons: "\<not> P c \<Longrightarrow> length (dropWhile (\<lambda>x. \<not> P x) (c # cs)) \<le> length cs"
  by (simp add: length_dropWhile_le)

function clean_loop :: "bool \<Rightarrow> string \<Rightarrow> nat \<Rightarrow> string \<Rightarrow> string" where
  "clean_loop rooted out dotdot [] = out"
| "clean_loop rooted out dotdot (c # cs) =
     (if c = CHR ''/'' then clean_loop rooted out dotdot cs
      else if c = CHR ''.'' \<and> (cs = [] \<or> hd cs = CHR ''/'') then
        clean_loop rooted out dotdot cs
      else if c = CHR ''.'' \<and> hd cs = CHR ''.'' \<and> (tl cs = [] \<or> hd (tl cs) = CHR ''/'') then
        (if dotdot < length out then
           clean_loop rooted (take (backtrack_w out dotdot (length out - 1)) out) dotdot (tl cs)
         else if \<not> rooted then
           (let out' = (if out \<noteq> [] then out @ ''/'' else out) @ ''..''
            in clean_loop rooted out' (length out') (tl cs))
         else clean_loop rooted out dotdot (tl cs))
      else
        (let out' = (if (rooted \<and> length out \<noteq> 1) \<or> (\<not> rooted \<and> length out \<noteq> 0)
                     then out @ ''/'' else out)
         in clean_loop rooted (out' @ takeWhile (\<lambda>x. \<not> x = CHR ''/'') (c # cs)) dotdot
              (dropWhile (\<lambda>x. \<not> x = CHR ''/'') (c # cs))))"
  by pat_completeness auto
termination
proof (relation "measure (\<lambda>(rooted, out, dotdot, path). length path)", goal_cases)
  case (7 rooted out dotdot c cs x)
  then have "length (dropWhile (\<lambda>x. \<not> x = CHR ''/'') (c # cs)) \<le> length cs"
    using length_dropWhile_Cons [of "\<lambda>x. x = CHR ''/''" c cs] by simp
  then show ?case by simp
qed simp_all

definition filepath_Clean :: "string \<Rightarrow> string" where
  "filepath_Clean path =
     (if path = [] then ''.''
      else let rooted = (hd path = CHR ''/'');
               out = (if rooted then clean_loop True ''/'' 1 (tl path)
                      else clean_loop False [] 0 path)
           in if out = [] then ''.'' else out)"

text \<open>
  The loop of \<^verbatim>\<open>filepath.Rel\<close> steps over the leading elements that the two cleaned paths
  share, and stops at the first element of the base that the target does not have at the
  same place: also when the target has run out and the base has an element left. It
  returns the element of the base at which it stopped (empty when the base ran out) and
  what is left of the base and of the target.
\<close>

lemma length_drop1_dropWhile: "xs \<noteq> [] \<Longrightarrow> length (drop 1 (dropWhile P xs)) < length xs"
proof -
  assume ne: "xs \<noteq> []"
  have le: "length (dropWhile P xs) \<le> length xs" by (rule length_dropWhile_le)
  have "length (drop 1 (dropWhile P xs)) = length (dropWhile P xs) - 1" by simp
  moreover have "0 < length xs" using ne by simp
  ultimately show ?thesis using le by arith
qed

function rel_loop :: "string \<Rightarrow> string \<Rightarrow> string \<times> string \<times> string" where
  "rel_loop base targ =
     (if base = [] \<and> targ = [] then ([], base, targ)
      else let be = takeWhile (\<lambda>c. c \<noteq> CHR ''/'') base;
               te = takeWhile (\<lambda>c. c \<noteq> CHR ''/'') targ
           in if te \<noteq> be then (be, base, targ)
              else rel_loop (drop 1 (dropWhile (\<lambda>c. c \<noteq> CHR ''/'') base))
                            (drop 1 (dropWhile (\<lambda>c. c \<noteq> CHR ''/'') targ)))"
  by pat_completeness auto
termination
proof (relation "measure (\<lambda>(base, targ). length base + length targ)", goal_cases)
  case 1
  show ?case by simp
next
  case (2 base targ be te)
  have le: "length (drop 1 (dropWhile (\<lambda>c. c \<noteq> CHR ''/'') xs)) \<le> length xs" for xs
    using length_dropWhile_le [of "\<lambda>c. c \<noteq> CHR ''/''" xs] by simp
  show ?case
  proof (cases "base = []")
    case False
    then have "length (drop 1 (dropWhile (\<lambda>c. c \<noteq> CHR ''/'') base)) < length base"
      by (rule length_drop1_dropWhile)
    with le [of targ] show ?thesis by simp
  next
    case True
    with 2 have "targ \<noteq> []" by simp
    then have "length (drop 1 (dropWhile (\<lambda>c. c \<noteq> CHR ''/'') targ)) < length targ"
      by (rule length_drop1_dropWhile)
    with True show ?thesis by simp
  qed
qed

declare rel_loop.simps [simp del]

text \<open>\<^verbatim>\<open>filepath.Rel(basepath, targpath)\<close>; \<open>None\<close> is its error.\<close>

definition filepath_Rel :: "string \<Rightarrow> string \<Rightarrow> string option" where
  "filepath_Rel basepath targpath =
     (let base = filepath_Clean basepath; targ = filepath_Clean targpath in
      if targ = base then Some ''.''
      else let base = (if base = ''.'' then [] else base);
               baseSlashed = (base \<noteq> [] \<and> hd base = CHR ''/'');
               targSlashed = (targ \<noteq> [] \<and> hd targ = CHR ''/'')
           in if baseSlashed \<noteq> targSlashed then None
              else case rel_loop base targ of
                (be, b, t) \<Rightarrow>
                  if be = ''..'' then None
                  else if b \<noteq> [] then
                    Some (''..'' @ concat (replicate (count_list b CHR ''/'') ''/..'')
                          @ (if t \<noteq> [] then ''/'' @ t else []))
                  else Some t)"

section \<open>The ignore matcher of \<^verbatim>\<open>ignore.go\<close>\<close>

record ignorePattern =
  pattern :: string
  isNegate :: bool
  isDir :: bool

record IgnoreMatcher =
  patterns :: "ignorePattern list"
  root :: string

definition NewIgnoreMatcher :: "string \<Rightarrow> IgnoreMatcher" where
  "NewIgnoreMatcher r = \<lparr>patterns = [], root = r\<rparr>"

text \<open>
  \<^verbatim>\<open>AddPattern\<close> compiles one line of text: a blank line and a comment add nothing, a
  leading \<^verbatim>\<open>!\<close> and a trailing \<^verbatim>\<open>/\<close> become the two flags of the pattern.
\<close>

definition AddPattern :: "IgnoreMatcher \<Rightarrow> string \<Rightarrow> IgnoreMatcher" where
  "AddPattern im line =
     (let pat = strings_TrimSpace line in
      if pat = [] \<or> strings_HasPrefix pat ''#'' then im
      else let p = \<lparr>pattern = pat, isNegate = False, isDir = False\<rparr>;
               p = (if strings_HasPrefix pat ''!''
                    then p\<lparr>isNegate := True, pattern := drop 1 pat\<rparr> else p);
               p = (if strings_HasSuffix (pattern p) ''/''
                    then p\<lparr>isDir := True, pattern := strings_TrimSuffix (pattern p) ''/''\<rparr>
                    else p)
           in im\<lparr>patterns := patterns im @ [p]\<rparr>)"

subsection \<open>Loading a file of patterns\<close>

text \<open>
  The file system is a parameter of the model. \<^verbatim>\<open>os.Open\<close> fails or gives a file; a
  \<^verbatim>\<open>bufio.Scanner\<close> over the file yields the lines it could read, and then ends, at the
  end of the file (\<open>scan_err = None\<close>) or on a failed read.
\<close>

datatype os_error = ErrNotExist | ErrPermission | ErrIO string

record scanned_file =
  scan_lines :: "string list"
  scan_err :: "os_error option"

definition os_IsNotExist :: "os_error \<Rightarrow> bool" where
  "os_IsNotExist err = (err = ErrNotExist)"

definition LoadIgnoreFile ::
  "(string \<Rightarrow> os_error + scanned_file) \<Rightarrow> IgnoreMatcher \<Rightarrow> string
     \<Rightarrow> IgnoreMatcher \<times> os_error option" where
  "LoadIgnoreFile os_Open im path =
     (case os_Open path of
        Inl err \<Rightarrow> if os_IsNotExist err then (im, None) else (im, Some err)
      | Inr file \<Rightarrow> (foldl AddPattern im (scan_lines file), scan_err file))"

subsection \<open>Matching\<close>

text \<open>
  A slice expression out of range panics; the functions that can reach one return
  \<open>None\<close> then, and \<open>Some\<close> of their verdict otherwise. \<open>or_else a b\<close> is the
  sequence \<^verbatim>\<open>if a { return true }; return b\<close>.
\<close>

definition or_else :: "bool option \<Rightarrow> bool option \<Rightarrow> bool option" where
  "or_else a b = (case a of None \<Rightarrow> None | Some True \<Rightarrow> Some True | Some False \<Rightarrow> b)"

text \<open>\<^verbatim>\<open>indexGlob\<close>: the first cut point of \<open>s\<close> whose tail the segment matches; \<open>None\<close> is \<open>-1\<close>.\<close>

fun indexGlob_cuts :: "string \<Rightarrow> string \<Rightarrow> nat \<Rightarrow> nat option" where
  "indexGlob_cuts [] seg i = (if filepath_Match seg [] then Some i else None)"
| "indexGlob_cuts (c # cs) seg i =
     (if filepath_Match seg (c # cs) then Some i else indexGlob_cuts cs seg (Suc i))"

definition indexGlob :: "string \<Rightarrow> string \<Rightarrow> nat option" where
  "indexGlob s seg =
     (if \<not> strings_ContainsAny seg ''*?['' then strings_Index s seg
      else indexGlob_cuts s seg 0)"

text \<open>The loop of \<^verbatim>\<open>matchDoublestar\<close> over the parts of the pattern after the first.\<close>

fun doublestar_segs :: "string list \<Rightarrow> string \<Rightarrow> bool option" where
  "doublestar_segs [] cur = Some True"
| "doublestar_segs (part # parts) cur =
     (let seg = strings_Trim part ''/'' in
      if seg = [] then doublestar_segs parts cur
      else case indexGlob cur seg of
             None \<Rightarrow> Some False
           | Some idx \<Rightarrow>
               if length cur < idx + length seg then None
               else doublestar_segs parts (drop (idx + length seg) cur))"

definition matchDoublestar :: "string \<Rightarrow> string \<Rightarrow> bool option" where
  "matchDoublestar pat0 path0 =
     (let pat = filepath_ToSlash pat0; path = filepath_ToSlash path0 in
      if strings_Trim pat ''/'' = ''**'' then Some True
      else let parts = strings_Split pat ''**'';
               leading = strings_TrimSuffix (hd parts) ''/''
           in if leading \<noteq> [] \<and> \<not> strings_HasPrefix path (strings_TrimPrefix leading ''/'')
              then Some False
              else let cur = (if leading \<noteq> [] then
                                strings_TrimPrefix
                                  (strings_TrimPrefix path (strings_TrimPrefix leading ''/'')) ''/''
                              else path)
                   in doublestar_segs (tl parts) cur)"

definition matchGlob :: "string \<Rightarrow> string \<Rightarrow> bool option" where
  "matchGlob pat path =
     (if strings_Contains pat ''**'' then matchDoublestar pat path
      else if filepath_Match pat path then Some True
      else Some (list_ex (\<lambda>part. filepath_Match pat part) (strings_Split path ''/'')))"

text \<open>The loop of \<^verbatim>\<open>matchPattern\<close> over the levels of the path, \<^verbatim>\<open>parts[i:]\<close> for each \<open>i\<close>.\<close>

fun matchPattern_levels :: "string \<Rightarrow> string list \<Rightarrow> bool option" where
  "matchPattern_levels pat [] = Some False"
| "matchPattern_levels pat (part # parts) =
     or_else (matchGlob pat (strings_Join (part # parts) ''/''))
       (or_else (matchGlob pat part) (matchPattern_levels pat parts))"

definition matchPattern :: "string \<Rightarrow> string \<Rightarrow> bool option" where
  "matchPattern pat path =
     (if strings_HasPrefix pat ''/'' then matchGlob (drop 1 pat) path
      else or_else (matchGlob pat path) (matchPattern_levels pat (strings_Split path ''/'')))"

subsection \<open>The decision\<close>

text \<open>One turn of the loop of \<^verbatim>\<open>ShouldIgnore\<close>: the value of \<open>ignored\<close> after pattern \<open>p\<close>.\<close>

definition ignore_step :: "string \<Rightarrow> bool \<Rightarrow> ignorePattern \<Rightarrow> bool option" where
  "ignore_step relPath ignored p =
     (let pat = strings_TrimPrefix (pattern p) ''./'' in
      case (if isDir p
            then or_else (matchPattern pat relPath)
                   (Some (strings_HasPrefix (relPath @ ''/'') (pat @ ''/'')))
            else Some False) of
        None \<Rightarrow> None
      | Some True \<Rightarrow> Some (if isNegate p then False else True)
      | Some False \<Rightarrow>
          (case matchPattern pat relPath of
             None \<Rightarrow> None
           | Some True \<Rightarrow> Some (if isNegate p then False else True)
           | Some False \<Rightarrow> Some ignored))"

fun ignore_loop :: "ignorePattern list \<Rightarrow> string \<Rightarrow> bool \<Rightarrow> bool option" where
  "ignore_loop [] relPath ignored = Some ignored"
| "ignore_loop (p # ps) relPath ignored =
     (case ignore_step relPath ignored p of
        None \<Rightarrow> None
      | Some ignored' \<Rightarrow> ignore_loop ps relPath ignored')"

text \<open>The path the patterns are tested on.\<close>

definition relPath_of :: "string \<Rightarrow> string \<Rightarrow> string" where
  "relPath_of r path =
     (let relPath = (case filepath_Rel r path of None \<Rightarrow> path | Some rel \<Rightarrow> rel);
          relPath = filepath_ToSlash relPath
      in strings_TrimPrefix relPath ''./'')"

text \<open>
  \<^verbatim>\<open>ShouldIgnore\<close>. The receiver is a pointer, \<open>None\<close> when it is \<^verbatim>\<open>nil\<close>. \<open>os_Stat\<close>
  is the file system: \<open>Some d\<close> when the path exists, \<open>d\<close> telling whether it is a
  directory, \<open>None\<close> when \<^verbatim>\<open>os.Stat\<close> fails. The result is \<open>None\<close> when the call panics.
\<close>

definition ShouldIgnore ::
  "(string \<Rightarrow> bool option) \<Rightarrow> IgnoreMatcher option \<Rightarrow> string \<Rightarrow> bool option" where
  "ShouldIgnore os_Stat imp path =
     (case imp of
        None \<Rightarrow> Some False
      | Some im \<Rightarrow>
          if length (patterns im) = 0 then Some False
          else let relPath = relPath_of (root im) path;
                   pathIsDir = (strings_HasSuffix relPath ''/''
                                \<or> (case os_Stat path of Some d \<Rightarrow> d | None \<Rightarrow> False))
               in ignore_loop (patterns im) relPath False)"

section \<open>Notions used to state the properties\<close>

text \<open>
  Whether the loop of \<^verbatim>\<open>ShouldIgnore\<close> takes the pattern \<open>p\<close> as matching the path:
  the test of the directory branch, and after it the test of the regular branch.
\<close>

definition pattern_matches :: "ignorePattern \<Rightarrow> string \<Rightarrow> bool option" where
  "pattern_matches p relPath =
     (let pat = strings_TrimPrefix (pattern p) ''./'' in
      or_else (if isDir p
               then or_else (matchPattern pat relPath)
                      (Some (strings_HasPrefix (relPath @ ''/'') (pat @ ''/'')))
               else Some False)
        (matchPattern pat relPath))"

text \<open>The patterns that \<^verbatim>\<open>AddPattern\<close> makes of one line: none or one.\<close>

definition compile_line :: "string \<Rightarrow> ignorePattern list" where
  "compile_line line = patterns (AddPattern (NewIgnoreMatcher []) line)"

text \<open>The five patterns of the scenario of \<^verbatim>\<open>TestIgnoreMatcher\<close>, compiled.\<close>

definition scenario_patterns :: "ignorePattern list" where
  "scenario_patterns =
     [\<lparr>pattern = ''.git'', isNegate = False, isDir = True\<rparr>,
      \<lparr>pattern = ''node_modules'', isNegate = False, isDir = True\<rparr>,
      \<lparr>pattern = ''build'', isNegate = False, isDir = True\<rparr>,
      \<lparr>pattern = ''*.log'', isNegate = False, isDir = False\<rparr>,
      \<lparr>pattern = ''build/important.log'', isNegate = True, isDir = False\<rparr>]"

text \<open>A file system with a pattern file that fails while it is read, and a file that cannot be opened.\<close>

definition example_fs :: "string \<Rightarrow> os_error + scanned_file" where
  "example_fs p =
     (if p = ''/R/.notifyignore''
      then Inr \<lparr>scan_lines = [''# Ignore patterns'', ''.git/'', '''', ''*.tmp''],
                scan_err = Some (ErrIO ''read fault'')\<rparr>
      else if p = ''/R/locked'' then Inl ErrPermission
      else Inl ErrNotExist)"

text \<open>The paths \<^verbatim>\<open>parts[i:]\<close> joined again, for each level \<open>i\<close> of a path: the path itself first.\<close>

fun level_paths :: "string list \<Rightarrow> string list" where
  "level_paths [] = []"
| "level_paths (p # ps) = strings_Join (p # ps) ''/'' # level_paths ps"

definition path_suffixes :: "string \<Rightarrow> string list" where
  "path_suffixes rel = level_paths (strings_Split rel ''/'')"

text \<open>
  The rule for an unanchored pattern as the specification words it: the glob body matches
  the full path, or a path suffix obtained by dropping one or more leading segments, or
  the final segment alone. \<open>glob\<close> is the match of a glob body.
\<close>

definition spec_unanchored_match :: "(string \<Rightarrow> string \<Rightarrow> bool) \<Rightarrow> string \<Rightarrow> string \<Rightarrow> bool" where
  "spec_unanchored_match glob body rel =
     (glob body rel
      \<or> list_ex (glob body) (tl (path_suffixes rel))
      \<or> glob body (last (strings_Split rel ''/'')))"

text \<open>
  The rule for a glob body with \<^verbatim>\<open>**\<close> as the specification words it: split at the
  token into a prefix and a suffix; the path must start with the prefix; an empty suffix
  asks no more; otherwise the rest of the path, from some boundary between segments,
  matches the suffix. (The earlier revision of the matcher, \<^verbatim>\<open>matchDoublestar\<close> in
  \<^verbatim>\<open>src/unnamed/part_000\<close>, is this rule, and rejects a body with several tokens.)
\<close>

definition spec_matchDoublestar :: "string \<Rightarrow> string \<Rightarrow> bool" where
  "spec_matchDoublestar body path =
     (case strings_Split body ''**'' of
        [p0, p1] \<Rightarrow>
          (let pre = strings_TrimSuffix p0 ''/''; suf = strings_TrimPrefix p1 ''/'' in
           if pre \<noteq> [] \<and> \<not> strings_HasPrefix path pre then False
           else if suf \<noteq> [] then
             (let remaining = strings_TrimPrefix (strings_TrimPrefix path pre) ''/'';
                  pathParts = strings_Split remaining ''/''
              in list_ex (\<lambda>i. filepath_Match suf (strings_Join (drop i pathParts) ''/''))
                   [0..<length pathParts + 1])
           else True)
      | _ \<Rightarrow> False)"





text \<open>
  The text that \<^verbatim>\<open>matchPattern\<close> hands to \<^verbatim>\<open>matchGlob\<close> for a pattern: the
  pattern without a leading \<^verbatim>\<open>./\<close> and without the slash that anchors it.
\<close>

definition glob_body :: "ignorePattern \<Rightarrow> string" where
  "glob_body p =
     (let pat = strings_TrimPrefix (pattern p) ''./''
      in if strings_HasPrefix pat ''/'' then drop 1 pat else pat)"

text \<open>
  A glob body in which no segment that follows a \<^verbatim>\<open>**\<close> token has one of the
  characters \<^verbatim>\<open>*?[\<close>. A body without the token is one.
\<close>

definition literal_after_doublestar :: "string \<Rightarrow> bool" where
  "literal_after_doublestar body =
     list_all (\<lambda>part. \<not> strings_ContainsAny (strings_Trim part ''/'') ''*?['')
       (tl (strings_Split body ''**''))"

section \<open>Basic facts\<close>

lemma or_else_simps [simp]:
  "or_else None b = None" "or_else (Some True) b = Some True" "or_else (Some False) b = b"
  by (simp_all add: or_else_def)

lemma or_else_eq_True: "or_else a b = Some True \<longleftrightarrow> a = Some True \<or> (a = Some False \<and> b = Some True)"
  by (auto simp: or_else_def split: option.splits bool.splits)

lemma or_else_eq_False: "or_else a b = Some False \<longleftrightarrow> a = Some False \<and> b = Some False"
  by (auto simp: or_else_def split: option.splits bool.splits)

lemma ignore_step_matches:
  "ignore_step rel ignored p =
     map_option (\<lambda>m. if m then \<not> isNegate p else ignored) (pattern_matches p rel)"
proof -
  define pat where "pat = strings_TrimPrefix (pattern p) ''./''"
  define m where "m = matchPattern pat rel"
  show ?thesis
  proof (cases m)
    case None
    then show ?thesis
      by (simp add: ignore_step_def pattern_matches_def Let_def pat_def [symmetric] m_def [symmetric])
  next
    case (Some b)
    then show ?thesis
      by (cases b; cases "isDir p";
          cases "strings_HasPrefix (rel @ ''/'') (pat @ ''/'')")
         (simp_all add: ignore_step_def pattern_matches_def Let_def pat_def [symmetric]
            m_def [symmetric])
  qed
qed

lemma ignore_loop_snoc:
  "ignore_loop (ps @ [p]) rel ignored =
     (case ignore_loop ps rel ignored of
        None \<Rightarrow> None
      | Some i \<Rightarrow> map_option (\<lambda>m. if m then \<not> isNegate p else i) (pattern_matches p rel))"
proof (induction ps arbitrary: ignored)
  case Nil
  show ?case by (simp add: ignore_step_matches split: option.splits)
next
  case (Cons q qs)
  show ?case by (simp add: Cons.IH split: option.splits)
qed

lemma AddPattern_root [simp]: "root (AddPattern im line) = root im"
  by (simp add: AddPattern_def Let_def)

lemma AddPattern_patterns: "patterns (AddPattern im line) = patterns im @ compile_line line"
  by (simp add: AddPattern_def compile_line_def NewIgnoreMatcher_def Let_def)

lemma foldl_AddPattern:
  "patterns (foldl AddPattern im ls) = patterns im @ concat (map compile_line ls)
   \<and> root (foldl AddPattern im ls) = root im"
  by (induction ls arbitrary: im) (simp_all add: AddPattern_patterns)

lemma ShouldIgnore_loop:
  "ShouldIgnore os_Stat (Some \<lparr>patterns = ps, root = r\<rparr>) path
     = ignore_loop ps (relPath_of r path) False"
  by (cases ps) (simp_all add: ShouldIgnore_def Let_def)

lemma scenario_compiled:
  "concat (map compile_line [''.git/'', ''node_modules/'', ''build/'', ''*.log'', ''!build/important.log''])
     = scenario_patterns"
  by code_simp


lemma ShouldIgnore_as_loop:
  "ShouldIgnore os_Stat (Some im) path
     = ignore_loop (patterns im) (relPath_of (root im) path) False"
  by (cases "patterns im") (simp_all add: ShouldIgnore_def Let_def)

lemma scenario_true:
  "ignore_loop scenario_patterns ''.git'' False = Some True"
  "ignore_loop scenario_patterns ''.git/objects'' False = Some True"
  "ignore_loop scenario_patterns ''node_modules'' False = Some True"
  "ignore_loop scenario_patterns ''node_modules/package1'' False = Some True"
  "ignore_loop scenario_patterns ''build'' False = Some True"
  "ignore_loop scenario_patterns ''build/output'' False = Some True"
  "ignore_loop scenario_patterns ''test.log'' False = Some True"
  "ignore_loop scenario_patterns ''src/debug.log'' False = Some True"
  by code_simp+

lemma scenario_false:
  "ignore_loop scenario_patterns ''build/important.log'' False = Some False"
  "ignore_loop scenario_patterns ''src'' False = Some False"
  "ignore_loop scenario_patterns ''src/main'' False = Some False"
  "ignore_loop scenario_patterns ''docs'' False = Some False"
  by code_simp+

lemma scenario_relPaths:
  "relPath_of ''/R'' ''/R/.git'' = ''.git''"
  "relPath_of ''/R'' ''/R/.git/objects'' = ''.git/objects''"
  "relPath_of ''/R'' ''/R/node_modules'' = ''node_modules''"
  "relPath_of ''/R'' ''/R/node_modules/package1'' = ''node_modules/package1''"
  "relPath_of ''/R'' ''/R/build'' = ''build''"
  "relPath_of ''/R'' ''/R/build/output'' = ''build/output''"
  "relPath_of ''/R'' ''/R/test.log'' = ''test.log''"
  "relPath_of ''/R'' ''/R/src/debug.log'' = ''src/debug.log''"
  "relPath_of ''/R'' ''/R/build/important.log'' = ''build/important.log''"
  "relPath_of ''/R'' ''/R/src'' = ''src''"
  "relPath_of ''/R'' ''/R/src/main'' = ''src/main''"
  "relPath_of ''/R'' ''/R/docs'' = ''docs''"
  by code_simp+

lemma strings_Index_None_iff: "strings_Index s sub = None \<longleftrightarrow> \<not> sublist sub s"
  by (induction s) (auto simp: sublist_Cons_right)

lemma strings_Contains_iff: "strings_Contains s sub \<longleftrightarrow> sublist sub s"
  by (simp add: strings_Contains_def strings_Index_None_iff)

lemma strings_Contains_drop: "strings_Contains (drop k s) sub \<Longrightarrow> strings_Contains s sub"
  unfolding strings_Contains_iff using sublist_drop sublist_order.order_trans by blast

lemma strings_Contains_TrimPrefix:
  "strings_Contains (strings_TrimPrefix s p) sub \<Longrightarrow> strings_Contains s sub"
  by (auto simp: strings_TrimPrefix_def dest: strings_Contains_drop split: if_splits)

lemma or_else_Some: "or_else (Some a) (Some b) = Some (a \<or> b)"
  by (cases a) simp_all

lemma matchGlob_plain:
  "\<not> strings_Contains pat ''**'' \<Longrightarrow>
   matchGlob pat path
     = Some (filepath_Match pat path
             \<or> (\<exists>part \<in> set (strings_Split path ''/''). filepath_Match pat part))"
  by (simp add: matchGlob_def list_ex_iff)

lemma doublestar_segs_total:
  "list_all (\<lambda>part. \<not> strings_ContainsAny (strings_Trim part ''/'') ''*?['') parts \<Longrightarrow>
   \<exists>b. doublestar_segs parts cur = Some b"
proof (induction parts arbitrary: cur)
  case Nil
  show ?case by auto
next
  case (Cons part parts)
  let ?seg = "strings_Trim part ''/''"
  from Cons.prems have lit: "\<not> strings_ContainsAny ?seg ''*?[''"
    and rest: "list_all (\<lambda>part. \<not> strings_ContainsAny (strings_Trim part ''/'') ''*?['') parts"
    by simp_all
  show ?case
  proof (cases "?seg = []")
    case True
    with Cons.IH [OF rest, of cur] show ?thesis by simp
  next
    case False
    show ?thesis
    proof (cases "strings_Index cur ?seg")
      case None
      with False lit show ?thesis by (auto simp: indexGlob_def)
    next
      case (Some idx)
      then have "idx + length ?seg \<le> length cur" by (rule strings_Index_bound)
      with Some False lit Cons.IH [OF rest, of "drop (idx + length ?seg) cur"]
      show ?thesis by (auto simp: indexGlob_def)
    qed
  qed
qed

lemma matchDoublestar_total:
  "literal_after_doublestar pat \<Longrightarrow> \<exists>b. matchDoublestar pat path = Some b"
  using doublestar_segs_total [of "tl (strings_Split pat ''**'')"]
  by (auto simp: matchDoublestar_def literal_after_doublestar_def filepath_ToSlash_def Let_def)

lemma matchGlob_total:
  "literal_after_doublestar pat \<Longrightarrow> \<exists>b. matchGlob pat path = Some b"
  using matchDoublestar_total [of pat path] by (auto simp: matchGlob_def)

lemma matchPattern_levels_total:
  "literal_after_doublestar pat \<Longrightarrow> \<exists>b. matchPattern_levels pat parts = Some b"
proof (induction parts)
  case Nil
  show ?case by auto
next
  case (Cons part parts)
  obtain x y z where "matchGlob pat (strings_Join (part # parts) ''/'') = Some x"
    "matchGlob pat part = Some y" "matchPattern_levels pat parts = Some z"
    using Cons matchGlob_total by blast
  then show ?case by (cases x; cases y) auto
qed

lemma matchPattern_total:
  assumes "literal_after_doublestar (if strings_HasPrefix pat ''/'' then drop 1 pat else pat)"
  shows "\<exists>b. matchPattern pat path = Some b"
proof (cases "strings_HasPrefix pat ''/''")
  case True
  with assms matchGlob_total [of "drop 1 pat" path] show ?thesis
    by (simp add: matchPattern_def)
next
  case False
  with assms obtain x y where "matchGlob pat path = Some x"
    "matchPattern_levels pat (strings_Split path ''/'') = Some y"
    using matchGlob_total [of pat] matchPattern_levels_total [of pat] by fastforce
  with False show ?thesis by (cases x) (auto simp: matchPattern_def)
qed

lemma glob_body_total:
  assumes "literal_after_doublestar (glob_body p)"
  shows "\<exists>m. matchPattern (strings_TrimPrefix (pattern p) ''./'') rel = Some m"
  using assms matchPattern_total [of "strings_TrimPrefix (pattern p) ''./''" rel]
  by (auto simp: glob_body_def Let_def)

lemma ignore_step_total:
  assumes "literal_after_doublestar (glob_body p)"
  shows "\<exists>b. ignore_step rel ignored p = Some b"
proof -
  obtain m where "matchPattern (strings_TrimPrefix (pattern p) ''./'') rel = Some m"
    using glob_body_total [OF assms] by blast
  then show ?thesis
    by (cases m; cases "isDir p")
       (simp_all add: ignore_step_matches pattern_matches_def Let_def or_else_Some)
qed

lemma ignore_loop_total:
  "\<forall>p \<in> set ps. literal_after_doublestar (glob_body p) \<Longrightarrow>
   \<exists>b. ignore_loop ps rel ignored = Some b"
proof (induction ps arbitrary: ignored)
  case Nil
  show ?case by simp
next
  case (Cons q qs)
  then obtain i where "ignore_step rel ignored q = Some i"
    using ignore_step_total [of q rel ignored] by auto
  with Cons show ?case by simp
qed

text \<open>A pattern without \<^verbatim>\<open>**\<close> has no segment after the token.\<close>

lemma no_doublestar_literal:
  "\<not> strings_Contains body ''**'' \<Longrightarrow> literal_after_doublestar body"
  by (simp add: literal_after_doublestar_def strings_Contains_def strings_Split.simps)

lemma glob_body_no_doublestar:
  assumes "\<not> strings_Contains (pattern p) ''**''"
  shows "literal_after_doublestar (glob_body p)"
proof -
  have t: "\<not> strings_Contains (strings_TrimPrefix (pattern p) ''./'') ''**''"
    using assms strings_Contains_TrimPrefix by blast
  then have "\<not> strings_Contains (drop 1 (strings_TrimPrefix (pattern p) ''./'')) ''**''"
    using strings_Contains_drop by blast
  with t show ?thesis by (simp add: glob_body_def Let_def no_doublestar_literal)
qed

lemma strings_Index_slash:
  "strings_Index s ''/'' =
     (if CHR ''/'' \<in> set s then Some (length (takeWhile (\<lambda>c. c \<noteq> CHR ''/'') s)) else None)"
  by (induction s) auto

lemma strings_Split_slash_none: "CHR ''/'' \<notin> set a \<Longrightarrow> strings_Split a ''/'' = [a]"
  by (simp add: strings_Split.simps strings_Index_slash)

lemma strings_Split_slash_append:
  assumes "CHR ''/'' \<notin> set a"
  shows "strings_Split (a @ CHR ''/'' # b) ''/'' = a # strings_Split b ''/''"
proof -
  have "takeWhile (\<lambda>c. c \<noteq> CHR ''/'') (a @ CHR ''/'' # b)
      = a @ takeWhile (\<lambda>c. c \<noteq> CHR ''/'') (CHR ''/'' # b)"
    using assms by (intro takeWhile_append2) auto
  then have "takeWhile (\<lambda>c. c \<noteq> CHR ''/'') (a @ CHR ''/'' # b) = a"
    by simp
  then show ?thesis
    by (subst strings_Split.simps) (simp add: strings_Index_slash)
qed

lemma strings_Split_slash_parts:
  "p \<in> set (strings_Split s ''/'') \<Longrightarrow> CHR ''/'' \<notin> set p"
proof (induction "length s" arbitrary: s rule: less_induct)
  case less
  show ?case
  proof (cases "CHR ''/'' \<in> set s")
    case False
    with less.prems show ?thesis by (simp add: strings_Split_slash_none)
  next
    case True
    define a where "a = takeWhile (\<lambda>c. c \<noteq> CHR ''/'') s"
    define b where "b = tl (dropWhile (\<lambda>c. c \<noteq> CHR ''/'') s)"
    have d: "dropWhile (\<lambda>c. c \<noteq> CHR ''/'') s \<noteq> []" using True by simp
    have "hd (dropWhile (\<lambda>c. c \<noteq> CHR ''/'') s) = CHR ''/''"
      using hd_dropWhile [OF d] by simp
    with d have "dropWhile (\<lambda>c. c \<noteq> CHR ''/'') s = CHR ''/'' # b"
      by (cases "dropWhile (\<lambda>c. c \<noteq> CHR ''/'') s") (auto simp: b_def)
    then have s: "s = a @ CHR ''/'' # b"
      using takeWhile_dropWhile_id [of "\<lambda>c. c \<noteq> CHR ''/''" s] by (simp add: a_def)
    have na: "CHR ''/'' \<notin> set a"
      unfolding a_def using set_takeWhileD by fastforce
    have "strings_Split s ''/'' = a # strings_Split b ''/''"
      unfolding s using na by (rule strings_Split_slash_append)
    with less.prems have "p = a \<or> p \<in> set (strings_Split b ''/'')" by auto
    moreover have "length b < length s" using s by simp
    ultimately show ?thesis using na less.hyps by blast
  qed
qed


lemma strings_Join_Cons:
  "ps \<noteq> [] \<Longrightarrow> strings_Join (p # ps) ''/'' = p @ CHR ''/'' # strings_Join ps ''/''"
  by (cases ps) simp_all

lemma strings_Split_Join:
  "ps \<noteq> [] \<Longrightarrow> \<forall>p \<in> set ps. CHR ''/'' \<notin> set p \<Longrightarrow>
   strings_Split (strings_Join ps ''/'') ''/'' = ps"
proof (induction ps)
  case Nil
  then show ?case by simp
next
  case (Cons p ps)
  show ?case
  proof (cases "ps = []")
    case True
    with Cons.prems show ?thesis by (simp add: strings_Split_slash_none)
  next
    case False
    with Cons show ?thesis
      by (simp add: strings_Join_Cons strings_Split_slash_append)
  qed
qed

lemma matchPattern_levels_plain:
  assumes "\<not> strings_Contains body ''**''" and "\<forall>p \<in> set ps. CHR ''/'' \<notin> set p"
  shows "matchPattern_levels body ps
           = Some ((\<exists>t \<in> set (level_paths ps). filepath_Match body t)
                   \<or> (\<exists>seg \<in> set ps. filepath_Match body seg))"
  using assms(2)
proof (induction ps)
  case Nil
  show ?case by simp
next
  case (Cons p ps)
  have j: "strings_Split (strings_Join (p # ps) ''/'') ''/'' = p # ps"
    using Cons.prems by (intro strings_Split_Join) auto
  have s: "strings_Split p ''/'' = [p]"
    using Cons.prems by (simp add: strings_Split_slash_none)
  from Cons show ?case
    by (simp add: matchGlob_plain [OF assms(1)] or_else_Some j s del: strings_Join.simps) blast
qed

lemma matchPattern_levels_False:
  "matchPattern_levels body ps = Some False \<longleftrightarrow>
     (\<forall>t \<in> set (level_paths ps). matchGlob body t = Some False)
     \<and> (\<forall>seg \<in> set ps. matchGlob body seg = Some False)"
  by (induction ps) (auto simp: or_else_eq_False simp del: strings_Join.simps)

lemma matchPattern_levels_True:
  "matchPattern_levels body ps = Some True \<Longrightarrow>
     (\<exists>t \<in> set (level_paths ps). matchGlob body t = Some True)
     \<or> (\<exists>seg \<in> set ps. matchGlob body seg = Some True)"
  by (induction ps) (auto simp: or_else_eq_True simp del: strings_Join.simps)























lemma bang_no_leading_space: "leading_space (CHR ''!'' # s) = None"
  by (simp add: leading_space_def space_tokens_def)

lemma TrimLeftSpace_bang: "TrimLeftSpace (CHR ''!'' # s) = CHR ''!'' # s"
  by (subst TrimLeftSpace.simps) (simp add: bang_no_leading_space)

lemma space_token_not_bang: "t \<in> set space_tokens \<Longrightarrow> t \<noteq> CHR ''!'' # s"
  by (auto simp: space_tokens_def)

lemma TrimRightSpace_bang: "\<exists>s'. TrimRightSpace (CHR ''!'' # s) = CHR ''!'' # s'"
proof (induction "length s" arbitrary: s rule: less_induct)
  case less
  show ?case
  proof (cases "trailing_space (CHR ''!'' # s)")
    case None
    then show ?thesis by (subst TrimRightSpace.simps) simp
  next
    case (Some n)
    then obtain t where t: "find (\<lambda>t. suffix t (CHR ''!'' # s)) space_tokens = Some t" "n = length t"
      by (auto simp: trailing_space_def)
    then have ts: "t \<in> set space_tokens" and su: "suffix t (CHR ''!'' # s)"
      by (auto simp: find_Some_iff)
    from su space_token_not_bang [OF ts] have "suffix t s" by (auto simp: suffix_Cons)
    then have le: "n \<le> length s" using t(2) by (simp add: suffix_length_le)
    have pos: "0 < n" using space_tokens_nonempty [OF ts] t(2) by simp
    define s1 where "s1 = take (length s - n) s"
    have tk: "take (length (CHR ''!'' # s) - n) (CHR ''!'' # s) = CHR ''!'' # s1"
      using le by (simp add: s1_def Suc_diff_le)
    have "length s1 < length s" using le pos by (simp add: s1_def)
    from less [OF this] obtain s' where "TrimRightSpace (CHR ''!'' # s1) = CHR ''!'' # s'"
      by blast
    then show ?thesis
      by (subst TrimRightSpace.simps) (simp only: Some option.case tk, blast)
  qed
qed

lemma compile_line_negation:
  "n \<in> set (compile_line (CHR ''!'' # A)) \<Longrightarrow> isNegate n"
proof -
  obtain s' where "strings_TrimSpace (CHR ''!'' # A) = CHR ''!'' # s'"
    using TrimRightSpace_bang by (auto simp: strings_TrimSpace_def TrimLeftSpace_bang)
  then show "n \<in> set (compile_line (CHR ''!'' # A)) \<Longrightarrow> isNegate n"
    by (auto simp: compile_line_def AddPattern_def NewIgnoreMatcher_def Let_def
        strings_HasPrefix_def split: if_splits)
qed






section \<open>Properties of the decision\<close>

subsection \<open>The scenario of the test suite\<close>

text \<open>
  Claim C1. Take a matcher with any root \<open>R\<close> and the patterns \<^verbatim>\<open>.git/\<close>,
  \<^verbatim>\<open>node_modules/\<close>, \<^verbatim>\<open>build/\<close>, \<^verbatim>\<open>*.log\<close>, \<^verbatim>\<open>!build/important.log\<close> added in
  that order. Whatever the file system holds, \<^verbatim>\<open>ShouldIgnore\<close> returns \<open>true\<close> for a
  candidate whose path relative to \<open>R\<close> is \<^verbatim>\<open>.git\<close>, \<^verbatim>\<open>.git/objects\<close>,
  \<^verbatim>\<open>node_modules\<close>, \<^verbatim>\<open>node_modules/package1\<close>, \<^verbatim>\<open>build\<close>, \<^verbatim>\<open>build/output\<close>,
  \<^verbatim>\<open>test.log\<close> or \<^verbatim>\<open>src/debug.log\<close>, and \<open>false\<close> when it is
  \<^verbatim>\<open>build/important.log\<close>, \<^verbatim>\<open>src\<close>, \<^verbatim>\<open>src/main\<close> or \<^verbatim>\<open>docs\<close>.
\<close>

theorem end_to_end_scenario:
  assumes "im = foldl AddPattern (NewIgnoreMatcher R)
                  [''.git/'', ''node_modules/'', ''build/'', ''*.log'', ''!build/important.log'']"
  shows "(relPath_of R path \<in> {''.git'', ''.git/objects'', ''node_modules'',
              ''node_modules/package1'', ''build'', ''build/output'', ''test.log'',
              ''src/debug.log''}
            \<longrightarrow> ShouldIgnore os_Stat (Some im) path = Some True)
       \<and> (relPath_of R path \<in> {''build/important.log'', ''src'', ''src/main'', ''docs''}
            \<longrightarrow> ShouldIgnore os_Stat (Some im) path = Some False)"
proof -
  have "patterns im = patterns (NewIgnoreMatcher R) @ concat (map compile_line
          [''.git/'', ''node_modules/'', ''build/'', ''*.log'', ''!build/important.log''])"
    unfolding assms using foldl_AddPattern by blast
  then have "patterns im = scenario_patterns"
    by (simp only: scenario_compiled) (simp add: NewIgnoreMatcher_def)
  moreover have "root im = root (NewIgnoreMatcher R)"
    unfolding assms using foldl_AddPattern by blast
  then have "root im = R" by (simp add: NewIgnoreMatcher_def)
  ultimately have "ShouldIgnore os_Stat (Some im) path
      = ignore_loop scenario_patterns (relPath_of R path) False"
    by (simp add: ShouldIgnore_as_loop)
  then show ?thesis using scenario_true scenario_false by auto
qed

theorem end_to_end_scenario_witness:
  "map (\<lambda>p. ShouldIgnore (\<lambda>_. None)
               (Some (foldl AddPattern (NewIgnoreMatcher ''/R'')
                  [''.git/'', ''node_modules/'', ''build/'', ''*.log'', ''!build/important.log''])) p)
     [''/R/.git'', ''/R/.git/objects'', ''/R/node_modules'', ''/R/node_modules/package1'',
      ''/R/build'', ''/R/build/output'', ''/R/test.log'', ''/R/src/debug.log'',
      ''/R/build/important.log'', ''/R/src'', ''/R/src/main'', ''/R/docs'']
   = [Some True, Some True, Some True, Some True, Some True, Some True, Some True, Some True,
      Some False, Some False, Some False, Some False]"
  using end_to_end_scenario [OF refl, of "''/R''" _ "\<lambda>_. None"]
  by (simp add: scenario_relPaths)


subsection \<open>The last matching pattern decides\<close>

text \<open>
  Claim C2. \<^verbatim>\<open>ShouldIgnore\<close> folds over the patterns in the order of insertion: the
  decision after one more pattern \<open>p\<close> is the negation of the negate flag of \<open>p\<close> when
  \<open>p\<close> matches the path, and the decision before \<open>p\<close> when it does not. So for a path
  that a pattern \<open>a\<close> and a negated pattern \<open>n\<close> both match, the sequence \<open>[a, n]\<close>
  yields \<open>false\<close> and the sequence \<open>[n, a]\<close> yields \<open>true\<close>. A line \<open>A\<close> with
  \<^verbatim>\<open>!\<close> put before it compiles to a negated pattern, if to any.
\<close>

theorem ShouldIgnore_later_pattern_wins:
  "ShouldIgnore os_Stat (Some \<lparr>patterns = ps @ [p], root = r\<rparr>) path =
     (case ShouldIgnore os_Stat (Some \<lparr>patterns = ps, root = r\<rparr>) path of
        None \<Rightarrow> None
      | Some i \<Rightarrow>
          (case pattern_matches p (relPath_of r path) of
             None \<Rightarrow> None
           | Some m \<Rightarrow> Some (if m then \<not> isNegate p else i)))
   \<and> (pattern_matches a (relPath_of r path) = Some True
        \<and> pattern_matches n (relPath_of r path) = Some True
        \<and> \<not> isNegate a \<and> isNegate n
      \<longrightarrow> ShouldIgnore os_Stat (Some \<lparr>patterns = [a, n], root = r\<rparr>) path = Some False
          \<and> ShouldIgnore os_Stat (Some \<lparr>patterns = [n, a], root = r\<rparr>) path = Some True)
   \<and> (\<forall>q \<in> set (compile_line (CHR ''!'' # A)). isNegate q)"
proof (intro conjI impI)
  show "ShouldIgnore os_Stat (Some \<lparr>patterns = ps @ [p], root = r\<rparr>) path =
     (case ShouldIgnore os_Stat (Some \<lparr>patterns = ps, root = r\<rparr>) path of
        None \<Rightarrow> None
      | Some i \<Rightarrow>
          (case pattern_matches p (relPath_of r path) of
             None \<Rightarrow> None
           | Some m \<Rightarrow> Some (if m then \<not> isNegate p else i)))"
    by (simp add: ShouldIgnore_loop ignore_loop_snoc split: option.splits)
next
  assume h: "pattern_matches a (relPath_of r path) = Some True
        \<and> pattern_matches n (relPath_of r path) = Some True
        \<and> \<not> isNegate a \<and> isNegate n"
  then show "ShouldIgnore os_Stat (Some \<lparr>patterns = [a, n], root = r\<rparr>) path = Some False"
    by (simp add: ShouldIgnore_loop ignore_step_matches)
  from h show "ShouldIgnore os_Stat (Some \<lparr>patterns = [n, a], root = r\<rparr>) path = Some True"
    by (simp add: ShouldIgnore_loop ignore_step_matches)
next
  show "\<forall>q \<in> set (compile_line (CHR ''!'' # A)). isNegate q"
    using compile_line_negation by blast
qed

theorem ShouldIgnore_later_pattern_wins_witness:
  "pattern_matches \<lparr>pattern = ''*.log'', isNegate = False, isDir = False\<rparr>
       (relPath_of ''/R'' ''/R/test.log'') = Some True
   \<and> pattern_matches \<lparr>pattern = ''*.log'', isNegate = True, isDir = False\<rparr>
       (relPath_of ''/R'' ''/R/test.log'') = Some True
   \<and> ShouldIgnore (\<lambda>_. None)
         (Some (AddPattern (AddPattern (NewIgnoreMatcher ''/R'') ''*.log'') ''!*.log''))
         ''/R/test.log'' = Some False
   \<and> ShouldIgnore (\<lambda>_. None)
         (Some (AddPattern (AddPattern (NewIgnoreMatcher ''/R'') ''!*.log'') ''*.log''))
         ''/R/test.log'' = Some True"
proof -
  let ?a = "\<lparr>pattern = ''*.log'', isNegate = False, isDir = False\<rparr>"
  let ?n = "\<lparr>pattern = ''*.log'', isNegate = True, isDir = False\<rparr>"
  have ma: "pattern_matches ?a (relPath_of ''/R'' ''/R/test.log'') = Some True"
    by code_simp
  have mn: "pattern_matches ?n (relPath_of ''/R'' ''/R/test.log'') = Some True"
    by code_simp
  have an: "AddPattern (AddPattern (NewIgnoreMatcher ''/R'') ''*.log'') ''!*.log''
      = \<lparr>patterns = [?a, ?n], root = ''/R''\<rparr>"
    by code_simp
  have na: "AddPattern (AddPattern (NewIgnoreMatcher ''/R'') ''!*.log'') ''*.log''
      = \<lparr>patterns = [?n, ?a], root = ''/R''\<rparr>"
    by code_simp
  from ShouldIgnore_later_pattern_wins [where a = ?a and n = ?n and r = "''/R''"
      and path = "''/R/test.log''" and os_Stat = "\<lambda>_. None"] ma mn
  show ?thesis by (simp add: an na)
qed

subsection \<open>An empty or absent set\<close>

text \<open>
  Claim C8. For every candidate path and whatever the file system holds,
  \<^verbatim>\<open>ShouldIgnore\<close> returns \<open>false\<close> when the receiver is \<^verbatim>\<open>nil\<close> and when the
  matcher has no pattern, as a matcher fresh from \<^verbatim>\<open>NewIgnoreMatcher\<close> has.
\<close>

theorem ShouldIgnore_empty_or_absent:
  "ShouldIgnore os_Stat None path = Some False
   \<and> ShouldIgnore os_Stat (Some \<lparr>patterns = [], root = r\<rparr>) path = Some False
   \<and> ShouldIgnore os_Stat (Some (NewIgnoreMatcher r)) path = Some False"
  by (simp add: ShouldIgnore_def NewIgnoreMatcher_def)

theorem ShouldIgnore_empty_or_absent_witness:
  "ShouldIgnore (\<lambda>_. Some True) None ''/R/src'' = Some False
   \<and> ShouldIgnore (\<lambda>_. Some True) (Some \<lparr>patterns = [], root = ''/R''\<rparr>) ''/R/src'' = Some False
   \<and> ShouldIgnore (\<lambda>_. Some True) (Some (NewIgnoreMatcher ''/R'')) ''/R/src'' = Some False"
  by (rule ShouldIgnore_empty_or_absent)

subsection \<open>Determinism\<close>

text \<open>
  Claim C9. The outcome of \<^verbatim>\<open>ShouldIgnore\<close> is a function of the root, the patterns,
  the candidate path and whether the candidate is a directory: two calls that agree on
  these four agree on the outcome, whatever else the two file systems hold. (The call
  to \<^verbatim>\<open>os.Stat\<close> is the only place where the function reads the outside world.)
\<close>

theorem ShouldIgnore_deterministic:
  assumes "root im1 = root im2" and "patterns im1 = patterns im2"
    and "os_Stat1 path = os_Stat2 path"
  shows "ShouldIgnore os_Stat1 (Some im1) path = ShouldIgnore os_Stat2 (Some im2) path"
  using assms by (simp add: ShouldIgnore_def Let_def)

theorem ShouldIgnore_deterministic_witness:
  "root \<lparr>patterns = [\<lparr>pattern = ''build'', isNegate = False, isDir = True\<rparr>], root = ''/R''\<rparr>
     = root (AddPattern (NewIgnoreMatcher ''/R'') ''build/'')
   \<and> patterns \<lparr>patterns = [\<lparr>pattern = ''build'', isNegate = False, isDir = True\<rparr>], root = ''/R''\<rparr>
     = patterns (AddPattern (NewIgnoreMatcher ''/R'') ''build/'')
   \<and> (\<lambda>p. if p = ''/R/build'' then Some True else None) ''/R/build''
     = (\<lambda>p. if p = ''/R/docs'' then Some False else Some True) ''/R/build''
   \<and> ShouldIgnore (\<lambda>p. if p = ''/R/build'' then Some True else None)
         (Some \<lparr>patterns = [\<lparr>pattern = ''build'', isNegate = False, isDir = True\<rparr>], root = ''/R''\<rparr>)
         ''/R/build''
     = ShouldIgnore (\<lambda>p. if p = ''/R/docs'' then Some False else Some True)
         (Some (AddPattern (NewIgnoreMatcher ''/R'') ''build/'')) ''/R/build''"
proof -
  have r: "root \<lparr>patterns = [\<lparr>pattern = ''build'', isNegate = False, isDir = True\<rparr>], root = ''/R''\<rparr>
     = root (AddPattern (NewIgnoreMatcher ''/R'') ''build/'')"
    by code_simp
  have p: "patterns \<lparr>patterns = [\<lparr>pattern = ''build'', isNegate = False, isDir = True\<rparr>], root = ''/R''\<rparr>
     = patterns (AddPattern (NewIgnoreMatcher ''/R'') ''build/'')"
    by code_simp
  have s: "(\<lambda>p. if p = ''/R/build'' then Some True else None) ''/R/build''
     = (\<lambda>p. if p = ''/R/docs'' then Some False else Some True) ''/R/build''"
    by simp
  have "ShouldIgnore (\<lambda>p. if p = ''/R/build'' then Some True else None)
         (Some \<lparr>patterns = [\<lparr>pattern = ''build'', isNegate = False, isDir = True\<rparr>], root = ''/R''\<rparr>)
         ''/R/build''
     = ShouldIgnore (\<lambda>p. if p = ''/R/docs'' then Some False else Some True)
         (Some (AddPattern (NewIgnoreMatcher ''/R'') ''build/'')) ''/R/build''"
    by (rule ShouldIgnore_deterministic [OF r p]) simp
  with r p s show ?thesis by blast
qed

subsection \<open>Anchored patterns\<close>

text \<open>
  Claim C3 says that an anchored pattern is compared with the whole relative path only,
  so that \<^verbatim>\<open>/src\<close> matches \<^verbatim>\<open>src\<close> at the root and not \<^verbatim>\<open>lib/src\<close>. The code does
  not do this: \<^verbatim>\<open>matchPattern\<close> drops the leading slash and calls \<^verbatim>\<open>matchGlob\<close>,
  which after the whole path tries every segment of the path by itself. Evaluated, the
  pattern \<^verbatim>\<open>/src\<close> matches \<^verbatim>\<open>src\<close> and also \<^verbatim>\<open>lib/src\<close>.
\<close>

theorem anchored_pattern_matches_below_root:
  "patterns (AddPattern (NewIgnoreMatcher ''/R'') ''/src'')
     = [\<lparr>pattern = ''/src'', isNegate = False, isDir = False\<rparr>]
   \<and> matchPattern ''/src'' ''src'' = Some True
   \<and> matchPattern ''/src'' ''lib/src'' = Some True
   \<and> ShouldIgnore (\<lambda>_. None) (Some (AddPattern (NewIgnoreMatcher ''/R'') ''/src'')) ''/R/src''
       = Some True
   \<and> ShouldIgnore (\<lambda>_. None) (Some (AddPattern (NewIgnoreMatcher ''/R'') ''/src'')) ''/R/lib/src''
       = Some True"
  by code_simp

subsection \<open>Loading a pattern file\<close>

text \<open>
  Claim C7. \<^verbatim>\<open>LoadIgnoreFile\<close> on a path whose file does not exist returns no error and
  the matcher as it was. When the file cannot be opened for another reason it returns that
  error. When the file opens, it returns the error on which the scanner stopped, if any,
  and the matcher then holds its former patterns followed by the patterns of the lines
  read before the failure, in the order of the file.
\<close>

theorem LoadIgnoreFile_outcomes:
  "(os_Open path = Inl ErrNotExist \<longrightarrow> LoadIgnoreFile os_Open im path = (im, None))
   \<and> (\<forall>err. os_Open path = Inl err \<and> err \<noteq> ErrNotExist
          \<longrightarrow> LoadIgnoreFile os_Open im path = (im, Some err))
   \<and> (\<forall>file. os_Open path = Inr file
          \<longrightarrow> snd (LoadIgnoreFile os_Open im path) = scan_err file
              \<and> patterns (fst (LoadIgnoreFile os_Open im path))
                  = patterns im @ concat (map compile_line (scan_lines file))
              \<and> root (fst (LoadIgnoreFile os_Open im path)) = root im)"
  by (simp add: LoadIgnoreFile_def os_IsNotExist_def foldl_AddPattern)

theorem LoadIgnoreFile_outcomes_witness:
  "LoadIgnoreFile example_fs (AddPattern (NewIgnoreMatcher ''/R'') ''build/'') ''/R/missing''
     = (AddPattern (NewIgnoreMatcher ''/R'') ''build/'', None)
   \<and> LoadIgnoreFile example_fs (AddPattern (NewIgnoreMatcher ''/R'') ''build/'') ''/R/locked''
     = (AddPattern (NewIgnoreMatcher ''/R'') ''build/'', Some ErrPermission)
   \<and> snd (LoadIgnoreFile example_fs (AddPattern (NewIgnoreMatcher ''/R'') ''build/'')
            ''/R/.notifyignore'') = Some (ErrIO ''read fault'')
   \<and> patterns (fst (LoadIgnoreFile example_fs (AddPattern (NewIgnoreMatcher ''/R'') ''build/'')
            ''/R/.notifyignore''))
     = [\<lparr>pattern = ''build'', isNegate = False, isDir = True\<rparr>,
        \<lparr>pattern = ''.git'', isNegate = False, isDir = True\<rparr>,
        \<lparr>pattern = ''*.tmp'', isNegate = False, isDir = False\<rparr>]"
proof -
  let ?im = "AddPattern (NewIgnoreMatcher ''/R'') ''build/''"
  have f1: "example_fs ''/R/missing'' = Inl ErrNotExist"
    and f2: "example_fs ''/R/locked'' = Inl ErrPermission"
    and f3: "example_fs ''/R/.notifyignore''
      = Inr \<lparr>scan_lines = [''# Ignore patterns'', ''.git/'', '''', ''*.tmp''],
              scan_err = Some (ErrIO ''read fault'')\<rparr>"
    by (simp_all add: example_fs_def)
  have c: "patterns ?im @ concat (map compile_line [''# Ignore patterns'', ''.git/'', '''', ''*.tmp''])
      = [\<lparr>pattern = ''build'', isNegate = False, isDir = True\<rparr>,
         \<lparr>pattern = ''.git'', isNegate = False, isDir = True\<rparr>,
         \<lparr>pattern = ''*.tmp'', isNegate = False, isDir = False\<rparr>]"
    by code_simp
  from LoadIgnoreFile_outcomes [of example_fs "''/R/missing''" ?im] f1
  have a1: "LoadIgnoreFile example_fs ?im ''/R/missing'' = (?im, None)" by blast
  from LoadIgnoreFile_outcomes [of example_fs "''/R/locked''" ?im] f2
  have a2: "LoadIgnoreFile example_fs ?im ''/R/locked'' = (?im, Some ErrPermission)" by simp
  from LoadIgnoreFile_outcomes [of example_fs "''/R/.notifyignore''" ?im] f3
  have a3: "snd (LoadIgnoreFile example_fs ?im ''/R/.notifyignore'') = Some (ErrIO ''read fault'')
     \<and> patterns (fst (LoadIgnoreFile example_fs ?im ''/R/.notifyignore''))
        = patterns ?im @ concat (map compile_line [''# Ignore patterns'', ''.git/'', '''', ''*.tmp''])"
    by simp
  from a1 a2 a3 c show ?thesis by simp
qed

subsection \<open>A path that cannot be made relative to the root\<close>

text \<open>
  Claim C10 says that for a path that \<^verbatim>\<open>filepath.Rel\<close> cannot make relative to the root
  the patterns are tested on the unmodified input path and that the call is total. The
  code tests them on the input path with a leading \<^verbatim>\<open>./\<close> removed: with the root
  \<^verbatim>\<open>/r\<close> and the pattern \<^verbatim>\<open>.\<close> the path \<^verbatim>\<open>./a\<close> is not ignored, while the
  pattern matches the unmodified path. (And with the pattern \<^verbatim>\<open>**/[ab]\<close> the call on
  the path \<^verbatim>\<open>a\<close> panics.)
\<close>

theorem unrelativizable_path_not_unmodified:
  "filepath_Rel ''/r'' ''./a'' = None
   \<and> ShouldIgnore (\<lambda>_. None) (Some (AddPattern (NewIgnoreMatcher ''/r'') ''.'')) ''./a'' = Some False
   \<and> ignore_loop (patterns (AddPattern (NewIgnoreMatcher ''/r'') ''.''))
        (filepath_ToSlash ''./a'') False = Some True
   \<and> filepath_Rel ''/r'' ''a'' = None
   \<and> ShouldIgnore (\<lambda>_. None) (Some (AddPattern (NewIgnoreMatcher ''/r'') ''**/[ab]'')) ''a'' = None"
  by code_simp

text \<open>
  Claim C10, amended. When \<^verbatim>\<open>filepath.Rel\<close> fails, \<^verbatim>\<open>ShouldIgnore\<close> raises no
  error for it: it tests all the patterns on the input path, separators normalized and
  one leading \<^verbatim>\<open>./\<close> removed, so a path outside the root can be reported as ignored.
  The call returns a verdict whenever, in every pattern, the segments that follow a
  \<^verbatim>\<open>**\<close> token have none of the characters \<^verbatim>\<open>*?[\<close>, as in every pattern
  without the token.
\<close>

theorem ShouldIgnore_unrelativizable:
  assumes "filepath_Rel (root im) path = None"
  shows "ShouldIgnore os_Stat (Some im) path
           = ignore_loop (patterns im) (strings_TrimPrefix (filepath_ToSlash path) ''./'') False
         \<and> ((\<forall>p \<in> set (patterns im). literal_after_doublestar (glob_body p))
              \<longrightarrow> (\<exists>b. ShouldIgnore os_Stat (Some im) path = Some b))"
  using assms ignore_loop_total [of "patterns im"]
  by (simp add: ShouldIgnore_as_loop relPath_of_def)

theorem ShouldIgnore_unrelativizable_witness:
  "filepath_Rel (root (foldl AddPattern (NewIgnoreMatcher ''/r'') [''*.log'', ''**/node_modules/'']))
       ''../x/node_modules/a.js'' = None
   \<and> list_all (\<lambda>p. literal_after_doublestar (glob_body p))
         (patterns (foldl AddPattern (NewIgnoreMatcher ''/r'') [''*.log'', ''**/node_modules/'']))
   \<and> ShouldIgnore (\<lambda>_. None)
         (Some (foldl AddPattern (NewIgnoreMatcher ''/r'') [''*.log'', ''**/node_modules/'']))
         ''../x/node_modules/a.js'' = Some True
   \<and> filepath_Rel (root (foldl AddPattern (NewIgnoreMatcher ''../..'') [''*.log'', ''**/node_modules/'']))
       ''..'' = None
   \<and> ShouldIgnore (\<lambda>_. None)
         (Some (foldl AddPattern (NewIgnoreMatcher ''../..'') [''*.log'', ''**/node_modules/'']))
         ''..'' = Some False"
proof -
  let ?im = "foldl AddPattern (NewIgnoreMatcher ''/r'') [''*.log'', ''**/node_modules/'']"
  let ?jm = "foldl AddPattern (NewIgnoreMatcher ''../..'') [''*.log'', ''**/node_modules/'']"
  have r: "filepath_Rel (root ?im) ''../x/node_modules/a.js'' = None" by code_simp
  have r': "filepath_Rel (root ?jm) ''..'' = None" by code_simp
  have q: "list_all (\<lambda>p. literal_after_doublestar (glob_body p)) (patterns ?im)" by code_simp
  then have p: "\<forall>p \<in> set (patterns ?im). literal_after_doublestar (glob_body p)"
    by (simp only: list_all_iff)
  have l: "ignore_loop (patterns ?im)
      (strings_TrimPrefix (filepath_ToSlash ''../x/node_modules/a.js'') ''./'') False = Some True"
    by code_simp
  have l': "ignore_loop (patterns ?jm) (strings_TrimPrefix (filepath_ToSlash ''..'') ''./'') False
      = Some False"
    by code_simp
  from ShouldIgnore_unrelativizable [OF r, of "\<lambda>_. None"] p
  have "\<exists>b. ShouldIgnore (\<lambda>_. None) (Some ?im) ''../x/node_modules/a.js'' = Some b" by blast
  moreover from ShouldIgnore_unrelativizable [OF r, of "\<lambda>_. None"] l
  have "ShouldIgnore (\<lambda>_. None) (Some ?im) ''../x/node_modules/a.js'' = Some True" by simp
  moreover from ShouldIgnore_unrelativizable [OF r', of "\<lambda>_. None"] l'
  have "ShouldIgnore (\<lambda>_. None) (Some ?jm) ''..'' = Some False" by simp
  ultimately show ?thesis using r r' q by simp
qed

subsection \<open>Unanchored patterns\<close>

text \<open>
  Claim C6 says that an unanchored pattern matches a path exactly when its glob body
  matches the full path, a suffix of it by segments, or its final segment, and that a segment
  inside the path, taken by itself, is no match. In the code it is one: \<^verbatim>\<open>matchGlob\<close>
  and the loop of \<^verbatim>\<open>matchPattern\<close> try every segment of the path. The pattern
  \<^verbatim>\<open>src\<close> matches \<^verbatim>\<open>src/main\<close>, which the rule of the claim excludes; and so it is
  when the glob match of the rule is read as \<^verbatim>\<open>matchGlob\<close>, for the pattern
  \<^verbatim>\<open>**/x?\<close> and the path \<^verbatim>\<open>xa/b\<close>.
\<close>

theorem unanchored_pattern_matches_inner_segment:
  "matchPattern ''src'' ''src/main'' = Some True
   \<and> \<not> spec_unanchored_match filepath_Match ''src'' ''src/main''
   \<and> ShouldIgnore (\<lambda>_. None) (Some (AddPattern (NewIgnoreMatcher ''/R'') ''src'')) ''/R/src/main''
       = Some True
   \<and> matchPattern ''**/x?'' ''xa/b'' = Some True
   \<and> \<not> spec_unanchored_match (\<lambda>p s. matchGlob p s = Some True) ''**/x?'' ''xa/b''"
  by code_simp

text \<open>
  Claim C6, amended. An unanchored pattern without \<^verbatim>\<open>**\<close> matches a relative path
  exactly when its glob body matches (by \<^verbatim>\<open>filepath.Match\<close>) the full path, or a suffix
  of it obtained by dropping leading segments, or any single segment of it, final or not.
  For any unanchored pattern, \<^verbatim>\<open>matchPattern\<close> returns \<open>true\<close> only when
  \<^verbatim>\<open>matchGlob\<close> accepts the full path, such a suffix or a single segment, and returns
  \<open>false\<close> exactly when \<^verbatim>\<open>matchGlob\<close> rejects all of them.
\<close>

theorem matchPattern_unanchored:
  assumes "\<not> strings_HasPrefix body ''/''"
  shows "(\<not> strings_Contains body ''**'' \<longrightarrow>
            matchPattern body rel
              = Some (filepath_Match body rel
                      \<or> (\<exists>t \<in> set (path_suffixes rel). filepath_Match body t)
                      \<or> (\<exists>seg \<in> set (strings_Split rel ''/''). filepath_Match body seg)))
       \<and> (matchPattern body rel = Some True \<longrightarrow>
            matchGlob body rel = Some True
            \<or> (\<exists>t \<in> set (path_suffixes rel). matchGlob body t = Some True)
            \<or> (\<exists>seg \<in> set (strings_Split rel ''/''). matchGlob body seg = Some True))
       \<and> (matchPattern body rel = Some False \<longleftrightarrow>
            matchGlob body rel = Some False
            \<and> (\<forall>t \<in> set (path_suffixes rel). matchGlob body t = Some False)
            \<and> (\<forall>seg \<in> set (strings_Split rel ''/''). matchGlob body seg = Some False))"
proof (intro conjI impI)
  assume plain: "\<not> strings_Contains body ''**''"
  have "\<forall>p \<in> set (strings_Split rel ''/''). CHR ''/'' \<notin> set p"
    using strings_Split_slash_parts by blast
  then show "matchPattern body rel
      = Some (filepath_Match body rel
              \<or> (\<exists>t \<in> set (path_suffixes rel). filepath_Match body t)
              \<or> (\<exists>seg \<in> set (strings_Split rel ''/''). filepath_Match body seg))"
    using assms
    by (auto simp: matchPattern_def matchGlob_plain [OF plain] or_else_Some
        matchPattern_levels_plain [OF plain] path_suffixes_def)
next
  assume "matchPattern body rel = Some True"
  then show "matchGlob body rel = Some True
      \<or> (\<exists>t \<in> set (path_suffixes rel). matchGlob body t = Some True)
      \<or> (\<exists>seg \<in> set (strings_Split rel ''/''). matchGlob body seg = Some True)"
    using assms matchPattern_levels_True [of body "strings_Split rel ''/''"]
    by (auto simp: matchPattern_def or_else_eq_True path_suffixes_def)
next
  show "matchPattern body rel = Some False \<longleftrightarrow>
            matchGlob body rel = Some False
            \<and> (\<forall>t \<in> set (path_suffixes rel). matchGlob body t = Some False)
            \<and> (\<forall>seg \<in> set (strings_Split rel ''/''). matchGlob body seg = Some False)"
    using assms
    by (simp add: matchPattern_def or_else_eq_False matchPattern_levels_False path_suffixes_def)
qed

theorem matchPattern_unanchored_witness:
  "strings_HasPrefix ''src'' ''/'' = False
   \<and> strings_Contains ''src'' ''**'' = False
   \<and> filepath_Match ''src'' ''lib/src/main'' = False
   \<and> list_ex (filepath_Match ''src'') (path_suffixes ''lib/src/main'') = False
   \<and> list_ex (filepath_Match ''src'') (strings_Split ''lib/src/main'' ''/'') = True
   \<and> matchPattern ''src'' ''lib/src/main'' = Some True"
proof -
  have h1: "\<not> strings_HasPrefix ''src'' ''/''" by code_simp
  have h2: "\<not> strings_Contains ''src'' ''**''" by code_simp
  have e1: "filepath_Match ''src'' ''lib/src/main'' = False" by code_simp
  have e2: "list_ex (filepath_Match ''src'') (path_suffixes ''lib/src/main'') = False"
    by code_simp
  have e3: "list_ex (filepath_Match ''src'') (strings_Split ''lib/src/main'' ''/'') = True"
    by code_simp
  from matchPattern_unanchored [OF h1, of "''lib/src/main''"] h2
  have "matchPattern ''src'' ''lib/src/main''
      = Some (filepath_Match ''src'' ''lib/src/main''
              \<or> (\<exists>t \<in> set (path_suffixes ''lib/src/main''). filepath_Match ''src'' t)
              \<or> (\<exists>seg \<in> set (strings_Split ''lib/src/main'' ''/''). filepath_Match ''src'' seg))"
    by blast
  with e1 e2 e3 h1 h2 show ?thesis by (simp add: list_ex_iff)
qed

subsection \<open>Recursive wildcards\<close>

text \<open>
  Claim C5 says that a glob body with \<^verbatim>\<open>**\<close> matches, after its prefix, exactly when
  the rest of the path from some boundary between segments glob-matches the suffix. The
  table of patterns in the documentation of the repository agrees: \<^verbatim>\<open>**/test/\<close> is to
  match the directories named \<^verbatim>\<open>test\<close> at any level. The code departs from the rule
  when the suffix has no wildcard character. \<^verbatim>\<open>indexGlob\<close> then answers with
  \<^verbatim>\<open>strings.Index\<close>, the first place where the suffix occurs in the rest of the path,
  be it inside a name, although the loop over the cut points that this shortcut stands
  for finds no match there. So the pattern \<^verbatim>\<open>**/test/\<close> ignores the file
  \<^verbatim>\<open>src/contest.go\<close>, and the pattern \<^verbatim>\<open>src/**/test\<close> ignores \<^verbatim>\<open>src/mytestfile\<close>;
  by the rule of the claim neither body matches.
\<close>

theorem doublestar_literal_suffix_inside_name:
  "ShouldIgnore (\<lambda>_. None) (Some (AddPattern (NewIgnoreMatcher ''/R'') ''**/test/''))
       ''/R/src/contest.go'' = Some True
   \<and> \<not> spec_matchDoublestar ''**/test'' ''src/contest.go''
   \<and> indexGlob ''src/contest.go'' ''test'' = Some 7
   \<and> indexGlob_cuts ''src/contest.go'' ''test'' 0 = None
   \<and> ShouldIgnore (\<lambda>_. None) (Some (AddPattern (NewIgnoreMatcher ''/R'') ''src/**/test''))
        ''/R/src/mytestfile'' = Some True
   \<and> \<not> spec_matchDoublestar ''src/**/test'' ''src/mytestfile''
   \<and> indexGlob ''mytestfile'' ''test'' = Some 2
   \<and> indexGlob_cuts ''mytestfile'' ''test'' 0 = None"
  by code_simp

subsection \<open>Directory-only patterns\<close>




text \<open>
  The comment in \<^verbatim>\<open>ShouldIgnore\<close> says that a directory pattern matches the directory
  itself or anything under it. For a body of several segments the code does so at the
  root only: the pattern \<^verbatim>\<open>a/b/\<close> ignores the directory \<^verbatim>\<open>x/a/b\<close> and not the file
  \<^verbatim>\<open>x/a/b/f.txt\<close> in it.
\<close>

lemma directory_pattern_of_segments_below_root:
  "ShouldIgnore (\<lambda>_. Some False) (Some (AddPattern (NewIgnoreMatcher ''/R'') ''a/b/''))
       ''/R/x/a/b'' = Some True
   \<and> ShouldIgnore (\<lambda>_. Some False) (Some (AddPattern (NewIgnoreMatcher ''/R'') ''a/b/''))
       ''/R/x/a/b/f.txt'' = Some False"
  by code_simp

end
